theory Spec2Isabelle
  imports Main "HOL-Library.Sublist"
begin

section \<open>JavaScript values used by the Gmail server\<close>

text \<open>
  A JavaScript string is modelled by the list of the bytes of its UTF-8 encoding, so that
  \<open>Buffer.from(s)\<close> is the identity on the model and only the conversion of bytes to
  numbers is written out. An optional field (\<open>undefined\<close> when absent) is an
  \<open>option\<close>. A string is truthy when it is not empty; \<open>undefined\<close> is falsy.
\<close>

definition nl :: char where
  "nl = CHR 0x0A"

definition truthy :: "string option \<Rightarrow> bool" where
  "truthy v = (case v of None \<Rightarrow> False | Some s \<Rightarrow> s \<noteq> [])"

text \<open>\<open>a || b\<close> on an optional string and a string.\<close>

definition or_else :: "string option \<Rightarrow> string \<Rightarrow> string" where
  "or_else v d = (case v of None \<Rightarrow> d | Some s \<Rightarrow> (if s \<noteq> [] then s else d))"

text \<open>\<open>Array.prototype.join\<close>.\<close>

fun join :: "string \<Rightarrow> string list \<Rightarrow> string" where
  "join sep [] = []"
| "join sep [x] = x"
| "join sep (x # y # ys) = x @ sep @ join sep (y # ys)"

text \<open>The decimal rendering of a non-negative integer inside a template literal.\<close>

definition digit_char :: "nat \<Rightarrow> char" where
  "digit_char d = char_of (48 + d)"

fun show_nat :: "nat \<Rightarrow> string" where
  "show_nat n = (if n < 10 then [digit_char n] else show_nat (n div 10) @ [digit_char (n mod 10)])"

declare show_nat.simps [simp del]

section \<open>The MIME codec: \<open>createEmailMessage\<close>\<close>

record options =
  cc :: "string list option"
  bcc :: "string list option"
  htmlBody :: "string option"
  mimeType :: "string option"
  inReplyTo :: "string option"
  threadId :: "string option"

text \<open>Destructuring defaults: \<open>cc = []\<close>, \<open>bcc = []\<close>, \<open>mimeType = 'text/plain'\<close>.\<close>

definition default_list :: "string list option \<Rightarrow> string list" where
  "default_list v = (case v of None \<Rightarrow> [] | Some xs \<Rightarrow> xs)"

definition default_mimeType :: "string option \<Rightarrow> string" where
  "default_mimeType v = (case v of None \<Rightarrow> ''text/plain'' | Some m \<Rightarrow> m)"

text \<open>The header lines pushed before the content type is decided.\<close>

definition address_headers :: "string list \<Rightarrow> string \<Rightarrow> options \<Rightarrow> string list" where
  "address_headers to subject opts =
     [''To: '' @ join '', '' to, ''Subject: '' @ subject]
     @ (if length (default_list (cc opts)) > 0
        then [''Cc: '' @ join '', '' (default_list (cc opts))] else [])
     @ (if length (default_list (bcc opts)) > 0
        then [''Bcc: '' @ join '', '' (default_list (bcc opts))] else [])
     @ (if truthy (inReplyTo opts) then [''In-Reply-To: '' @ the (inReplyTo opts)] else [])
     @ (if truthy (threadId opts) then [''References: '' @ the (threadId opts)] else [])"

text \<open>
  The three branches of the source, in its order. The result is the pair of the final
  header lines and \<open>emailContent\<close>. \<open>now\<close> is the value of \<open>Date.now()\<close>.
\<close>

definition boundary_of :: "nat \<Rightarrow> string" where
  "boundary_of now = ''boundary_'' @ show_nat now"

definition email_parts :: "nat \<Rightarrow> string list \<Rightarrow> string \<Rightarrow> string \<Rightarrow> options \<Rightarrow> string list \<times> string" where
  "email_parts now to subject body opts =
     (let headers = address_headers to subject opts;
          mt = default_mimeType (mimeType opts)
      in if mt = ''text/html'' \<or> truthy (htmlBody opts) then
           (headers @ [''Content-Type: text/html; charset=utf-8''],
            or_else (htmlBody opts) body)
         else if mt = ''multipart/alternative'' \<and> truthy (htmlBody opts) then
           (let boundary = boundary_of now in
            (headers @ [''Content-Type: multipart/alternative; boundary=\"'' @ boundary @ ''\"''],
             join [nl]
               [''--'' @ boundary,
                ''Content-Type: text/plain; charset=utf-8'',
                '''',
                body,
                '''',
                ''--'' @ boundary,
                ''Content-Type: text/html; charset=utf-8'',
                '''',
                the (htmlBody opts),
                '''',
                ''--'' @ boundary @ ''--'']))
         else
           (headers @ [''Content-Type: text/plain; charset=utf-8''], body))"

text \<open>\<open>const email = headers.join('\n') + '\n\n' + emailContent\<close>.\<close>

definition email_text :: "nat \<Rightarrow> string list \<Rightarrow> string \<Rightarrow> string \<Rightarrow> options \<Rightarrow> string" where
  "email_text now to subject body opts =
     (case email_parts now to subject body opts of
        (headers, emailContent) \<Rightarrow> join [nl] headers @ [nl, nl] @ emailContent)"

text \<open>
  \<open>Buffer.from(email).toString('base64')\<close> is the standard base64 encoding (RFC 4648)
  of the bytes: three bytes give four characters of the alphabet, and a last group of one
  or two bytes is padded with \<open>=\<close>.
\<close>

definition b64_alphabet :: string where
  "b64_alphabet = ''ABCDEFGHIJKLMNOPQRSTUVWXYZabcdefghijklmnopqrstuvwxyz0123456789+/''"

definition b64_char :: "nat \<Rightarrow> char" where
  "b64_char n = b64_alphabet ! n"

fun base64_bytes :: "nat list \<Rightarrow> string" where
  "base64_bytes (a # b # c # rest) =
     [b64_char (a div 4), b64_char ((a mod 4) * 16 + b div 16),
      b64_char ((b mod 16) * 4 + c div 64), b64_char (c mod 64)] @ base64_bytes rest"
| "base64_bytes [a, b] =
     [b64_char (a div 4), b64_char ((a mod 4) * 16 + b div 16),
      b64_char ((b mod 16) * 4), CHR ''='']"
| "base64_bytes [a] =
     [b64_char (a div 4), b64_char ((a mod 4) * 16), CHR ''='', CHR ''='']"
| "base64_bytes [] = []"

definition toString_base64 :: "string \<Rightarrow> string" where
  "toString_base64 s = base64_bytes (map of_char s)"

text \<open>\<open>s.replace(/c/g, r)\<close> for a one-character pattern.\<close>

definition replace_all :: "char \<Rightarrow> string \<Rightarrow> string \<Rightarrow> string" where
  "replace_all c r s = concat (map (\<lambda>x. if x = c then r else [x]) s)"

definition urlsafe :: "string \<Rightarrow> string" where
  "urlsafe s =
     replace_all (CHR ''='') '''' (replace_all (CHR ''/'') ''_'' (replace_all (CHR ''+'') ''-'' s))"

definition createEmailMessage :: "nat \<Rightarrow> string list \<Rightarrow> string \<Rightarrow> string \<Rightarrow> options \<Rightarrow> string" where
  "createEmailMessage now to subject body opts =
     urlsafe (toString_base64 (email_text now to subject body opts))"

subsection \<open>The reading side that the specification describes\<close>

text \<open>
  URL-safe base64 as the specification words it: standard base64 with every \<open>+\<close>
  replaced by \<open>-\<close>, every \<open>/\<close> replaced by \<open>_\<close> and every \<open>=\<close> removed.
\<close>

definition base64url :: "string \<Rightarrow> string" where
  "base64url s =
     concat (map (\<lambda>x. if x = CHR ''+'' then ''-'' else if x = CHR ''/'' then ''_''
                       else if x = CHR ''='' then [] else [x]) (toString_base64 s))"

text \<open>
  The decoder of unpadded URL-safe base64: every character is looked up in the URL-safe
  alphabet, four sextets give three bytes, and a last group of three or two sextets gives
  two bytes or one.
\<close>

fun index_of :: "'a list \<Rightarrow> 'a \<Rightarrow> nat" where
  "index_of [] x = 0"
| "index_of (y # ys) x = (if x = y then 0 else Suc (index_of ys x))"

definition b64url_alphabet :: string where
  "b64url_alphabet = ''ABCDEFGHIJKLMNOPQRSTUVWXYZabcdefghijklmnopqrstuvwxyz0123456789-_''"

definition b64url_index :: "char \<Rightarrow> nat" where
  "b64url_index c = index_of b64url_alphabet c"

fun decode_sextets :: "nat list \<Rightarrow> nat list" where
  "decode_sextets (a # b # c # d # rest) =
     [a * 4 + b div 16, (b mod 16) * 16 + c div 4, (c mod 4) * 64 + d] @ decode_sextets rest"
| "decode_sextets [a, b, c] = [a * 4 + b div 16, (b mod 16) * 16 + c div 4]"
| "decode_sextets [a, b] = [a * 4 + b div 16]"
| "decode_sextets _ = []"

definition base64url_decode :: "string \<Rightarrow> string" where
  "base64url_decode s = map char_of (decode_sextets (map b64url_index s))"

text \<open>
  Header-free content: everything after the first blank line (two consecutive line
  feeds); \<open>None\<close> when the text has no blank line.
\<close>

fun strip_headers :: "string \<Rightarrow> string option" where
  "strip_headers (a # b # cs) =
     (if a = nl \<and> b = nl then Some cs else strip_headers (b # cs))"
| "strip_headers _ = None"

section \<open>The MIME codec: \<open>extractEmailContent\<close>\<close>

text \<open>
  A part of the gateway's payload: every field may be absent. \<open>body_size\<close> is the
  field \<open>size\<close> of the body.
\<close>

record body_t =
  data :: "string option"
  attachmentId :: "string option"
  body_size :: "nat option"

datatype part =
  Part (part_mimeType: "string option") (part_filename: "string option")
       (part_body: "body_t option") (part_parts: "part list option")

record attachment =
  att_id :: string
  att_filename :: string
  att_mimeType :: string
  att_size :: nat

text \<open>The three accumulators of the closure.\<close>

record content =
  textContent :: string
  htmlContent :: string
  attachments :: "attachment list"

text \<open>\<open>part.body?.data\<close> and \<open>part.body?.attachmentId\<close>.\<close>

definition body_data :: "body_t option \<Rightarrow> string option" where
  "body_data b = (case b of None \<Rightarrow> None | Some bd \<Rightarrow> data bd)"

definition body_attachmentId :: "body_t option \<Rightarrow> string option" where
  "body_attachmentId b = (case b of None \<Rightarrow> None | Some bd \<Rightarrow> attachmentId bd)"

text \<open>The object pushed for a part whose body has a truthy \<open>attachmentId\<close>.\<close>

definition descriptor :: "part \<Rightarrow> attachment" where
  "descriptor p =
     (let aid = the (body_attachmentId (part_body p)) in
      \<lparr>att_id = aid,
       att_filename = or_else (part_filename p) (''attachment-'' @ aid),
       att_mimeType = or_else (part_mimeType p) ''application/octet-stream'',
       att_size = (case body_size (the (part_body p)) of None \<Rightarrow> 0 | Some n \<Rightarrow> n)\<rparr>)"

text \<open>
  \<open>processPayload\<close>, with the accumulators passed and returned. \<open>dec\<close> stands for
  \<open>Buffer.from(d, 'base64').toString('utf8')\<close>.
\<close>

fun processPayload :: "(string \<Rightarrow> string) \<Rightarrow> part \<Rightarrow> content \<Rightarrow> content" where
  "processPayload dec (Part mt fname b ps) acc =
     (let acc1 =
            (if truthy (body_data b) then
               (let c = dec (the (body_data b)) in
                if mt = Some ''text/plain'' then acc\<lparr>textContent := textContent acc @ c\<rparr>
                else if mt = Some ''text/html'' then acc\<lparr>htmlContent := htmlContent acc @ c\<rparr>
                else acc)
             else acc);
          acc2 =
            (if truthy (body_attachmentId b)
             then acc1\<lparr>attachments := attachments acc1 @ [descriptor (Part mt fname b ps)]\<rparr>
             else acc1)
      in case ps of
           None \<Rightarrow> acc2
         | Some subparts \<Rightarrow> fold (processPayload dec) subparts acc2)"

definition extractEmailContent :: "(string \<Rightarrow> string) \<Rightarrow> part \<Rightarrow> content" where
  "extractEmailContent dec payload =
     processPayload dec payload \<lparr>textContent = [], htmlContent = [], attachments = []\<rparr>"

subsection \<open>Document order\<close>

text \<open>The parts of a tree in pre-order, the children of a part in their order.\<close>

fun preorder :: "part \<Rightarrow> part list" where
  "preorder (Part mt fname b ps) =
     Part mt fname b ps # concat (map preorder (case ps of None \<Rightarrow> [] | Some l \<Rightarrow> l))"

text \<open>
  The decoded inline body of a part of the given type; empty when the part has another
  type or carries no inline data.
\<close>

definition decoded_body :: "(string \<Rightarrow> string) \<Rightarrow> string \<Rightarrow> part \<Rightarrow> string" where
  "decoded_body dec ty p =
     (if part_mimeType p = Some ty \<and> truthy (body_data (part_body p))
      then dec (the (body_data (part_body p))) else [])"

definition carries_attachment :: "part \<Rightarrow> bool" where
  "carries_attachment p = truthy (body_attachmentId (part_body p))"

section \<open>The batch engine\<close>

text \<open>\<open>Array.prototype.slice(start, end)\<close> on integer arguments.\<close>

definition js_slice :: "'a list \<Rightarrow> int \<Rightarrow> int \<Rightarrow> 'a list" where
  "js_slice xs start fin =
     (let len = int (length xs);
          k = (if start < 0 then max (len + start) 0 else min start len);
          final = (if fin < 0 then max (len + fin) 0 else min fin len)
      in take (nat (final - k)) (drop (nat k) xs))"

text \<open>
  What a gateway call throws: an \<open>Error\<close> with its message, or another value. The
  gateway is an oracle: the outcome of the \<open>n\<close>-th call of the run, made for an id, is
  \<open>None\<close> when the call returns and the thrown value otherwise.
\<close>

datatype thrown = Error string | Other

definition error_message :: "thrown \<Rightarrow> string" where
  "error_message e = (case e of Error m \<Rightarrow> m | Other \<Rightarrow> ''Unknown error'')"

type_synonym gateway = "nat \<Rightarrow> string \<Rightarrow> thrown option"

record batch_result =
  messageId :: string
  success :: bool
  error_text :: "string option"

text \<open>The body of the callback given to \<open>batch.map\<close>: a \<open>try\<close>/\<open>catch\<close> around one call.\<close>

definition attempt :: "gateway \<Rightarrow> nat \<Rightarrow> string \<Rightarrow> batch_result" where
  "attempt gw n mid =
     (case gw n mid of
        None \<Rightarrow> \<lparr>messageId = mid, success = True, error_text = None\<rparr>
      | Some e \<Rightarrow> \<lparr>messageId = mid, success = False, error_text = Some (error_message e)\<rparr>)"

text \<open>
  \<open>await Promise.all(batch.map(...))\<close>: the calls are issued in the order of the batch and
  the array of results is in the order of the batch, whatever the order of completion.
\<close>

fun run_chunk :: "gateway \<Rightarrow> nat \<Rightarrow> string list \<Rightarrow> batch_result list" where
  "run_chunk gw n [] = []"
| "run_chunk gw n (mid # rest) = attempt gw n mid # run_chunk gw (Suc n) rest"

record loop_state =
  idx :: int
  results :: "batch_result list"
  calls :: nat

text \<open>One iteration of the \<open>for\<close> loop, with its increment \<open>i += batchSize\<close>.\<close>

definition current_batch :: "string list \<Rightarrow> int \<Rightarrow> loop_state \<Rightarrow> string list" where
  "current_batch messageIds batchSize st = js_slice messageIds (idx st) (idx st + batchSize)"

definition loop_body :: "gateway \<Rightarrow> string list \<Rightarrow> int \<Rightarrow> loop_state \<Rightarrow> loop_state" where
  "loop_body gw messageIds batchSize st =
     (let batch = current_batch messageIds batchSize st in
      \<lparr>idx = idx st + batchSize,
       results = results st @ run_chunk gw (calls st) batch,
       calls = calls st + length batch\<rparr>)"

text \<open>The loop may not return: \<open>None\<close> is the run that never leaves it.\<close>

partial_function (option) batch_loop ::
  "gateway \<Rightarrow> string list \<Rightarrow> int \<Rightarrow> loop_state \<Rightarrow> loop_state option" where
  "batch_loop gw messageIds batchSize st =
     (if idx st < int (length messageIds)
      then batch_loop gw messageIds batchSize (loop_body gw messageIds batchSize st)
      else Some st)"

definition initial_state :: loop_state where
  "initial_state = \<lparr>idx = 0, results = [], calls = 0\<rparr>"

definition run_batches :: "gateway \<Rightarrow> string list \<Rightarrow> int \<Rightarrow> batch_result list option" where
  "run_batches gw messageIds batchSize =
     map_option results (batch_loop gw messageIds batchSize initial_state)"

definition successful :: "batch_result list \<Rightarrow> nat" where
  "successful rs = length (filter (\<lambda>r. success r) rs)"

definition failed :: "batch_result list \<Rightarrow> nat" where
  "failed rs = length (filter (\<lambda>r. \<not> success r) rs)"

definition gmail_batch_modify_emails :: "gateway \<Rightarrow> string list \<Rightarrow> int \<Rightarrow> string option" where
  "gmail_batch_modify_emails gw messageIds batchSize =
     map_option
       (\<lambda>rs. ''Batch modify completed. Successfully modified: '' @ show_nat (successful rs)
             @ '', Failed: '' @ show_nat (failed rs))
       (run_batches gw messageIds batchSize)"

definition gmail_batch_delete_emails :: "gateway \<Rightarrow> string list \<Rightarrow> int \<Rightarrow> string option" where
  "gmail_batch_delete_emails gw messageIds batchSize =
     map_option
       (\<lambda>rs. ''Batch delete completed. Successfully deleted: '' @ show_nat (successful rs)
             @ '', Failed: '' @ show_nat (failed rs))
       (run_batches gw messageIds batchSize)"

text \<open>The report the loop is expected to build: one entry per id, in the order of the ids.\<close>

definition expected_results :: "gateway \<Rightarrow> string list \<Rightarrow> batch_result list" where
  "expected_results gw messageIds =
     map (\<lambda>(k, mid). attempt gw k mid) (enumerate 0 messageIds)"

section \<open>The credential store\<close>

text \<open>
  What is at \<open>TOKEN_PATH\<close>: nothing, a file that cannot be read, or a file with its
  text. \<open>JSON.parse\<close> is a parameter: it throws or returns a value, and a value is
  \<open>None\<close> for \<open>null\<close>.
\<close>

datatype file_state = Absent | Unreadable | Content string

datatype io_error = ReadFailure | ParseFailure

record world =
  token_file :: file_state
  stderr :: "string list"

definition existsSync :: "world \<Rightarrow> bool" where
  "existsSync w = (token_file w \<noteq> Absent)"

definition readFileSync :: "world \<Rightarrow> io_error + string" where
  "readFileSync w =
     (case token_file w of Content s \<Rightarrow> Inr s | Absent \<Rightarrow> Inl ReadFailure
      | Unreadable \<Rightarrow> Inl ReadFailure)"

text \<open>
  The \<open>try\<close> block of \<open>loadToken\<close>: \<open>Inl\<close> is a throw, \<open>Inr (Some v)\<close> the
  \<open>return\<close> inside the block and \<open>Inr None\<close> the end of the block without a return.
\<close>

definition loadToken_try ::
  "(string \<Rightarrow> io_error + 'j option) \<Rightarrow> world \<Rightarrow> io_error + 'j option option" where
  "loadToken_try parse w =
     (if existsSync w then
        (case readFileSync w of
           Inl e \<Rightarrow> Inl e
         | Inr token \<Rightarrow> (case parse token of Inl e \<Rightarrow> Inl e | Inr v \<Rightarrow> Inr (Some v)))
      else Inr None)"

text \<open>
  \<open>loadToken\<close> with its \<open>catch\<close>, which logs and falls through to \<open>return null\<close>.
  The result is the world after the call and what the call does: \<open>Inl\<close> would be an
  exception leaving the function.
\<close>

definition loadToken ::
  "(string \<Rightarrow> io_error + 'j option) \<Rightarrow> world \<Rightarrow> world \<times> (io_error + 'j option)" where
  "loadToken parse w =
     (case loadToken_try parse w of
        Inr (Some v) \<Rightarrow> (w, Inr v)
      | Inr None \<Rightarrow> (w, Inr None)
      | Inl e \<Rightarrow> (w\<lparr>stderr := stderr w @ [''Error loading token:'']\<rparr>, Inr None))"

section \<open>The interactive authorization\<close>

text \<open>
  The state that the callback server of \<open>getAuthUrlAndWaitForCallback\<close> acts on: the
  token file, the credentials of the client, whether the server listens, the promise
  and the status codes of the responses sent. A token set is its JSON text.
\<close>

datatype outcome = Pending | Resolved | Rejected thrown

record auth_state =
  auth_file :: file_state
  credentials :: "string option"
  listening :: bool
  promise :: outcome
  responses :: "nat list"

text \<open>
  The collaborators: \<open>url.parse(u, true).query.code\<close>, \<open>oauth2Client.getToken\<close> and
  \<open>fs.writeFileSync\<close>, which may throw.
\<close>

record auth_env =
  query_code :: "string \<Rightarrow> string option"
  getToken :: "string \<Rightarrow> thrown + string"
  writeFileSync :: "string \<Rightarrow> thrown option"

text \<open>Settling a promise that is already settled does nothing.\<close>

definition settle :: "outcome \<Rightarrow> auth_state \<Rightarrow> auth_state" where
  "settle v st = (if promise st = Pending then st\<lparr>promise := v\<rparr> else st)"

definition saveToken :: "auth_env \<Rightarrow> string \<Rightarrow> auth_state \<Rightarrow> thrown option \<times> auth_state" where
  "saveToken env token st =
     (case writeFileSync env token of
        Some e \<Rightarrow> (Some e, st)
      | None \<Rightarrow> (None, st\<lparr>auth_file := Content token\<rparr>))"

definition is_callback :: "string option \<Rightarrow> bool" where
  "is_callback u = (case u of None \<Rightarrow> False | Some s \<Rightarrow> prefix ''/oauth/callback'' s)"

text \<open>The \<open>try\<close> block of the request handler: what it throws, if anything, and the state.\<close>

definition handler_try :: "auth_env \<Rightarrow> string option \<Rightarrow> auth_state \<Rightarrow> thrown option \<times> auth_state" where
  "handler_try env u st =
     (if is_callback u then
        (let code = query_code env (the u) in
         if truthy code then
           (case getToken env (the code) of
              Inl e \<Rightarrow> (Some e, st)
            | Inr tokens \<Rightarrow>
                (case saveToken env tokens (st\<lparr>credentials := Some tokens\<rparr>) of
                   (Some e, st1) \<Rightarrow> (Some e, st1)
                 | (None, st1) \<Rightarrow>
                     (None, settle Resolved
                        (st1\<lparr>responses := responses st1 @ [200], listening := False\<rparr>))))
         else (Some (Error ''No authorization code received''), st))
      else (None, st))"

definition request_handler :: "auth_env \<Rightarrow> string option \<Rightarrow> auth_state \<Rightarrow> auth_state" where
  "request_handler env u st =
     (case handler_try env u st of
        (None, st1) \<Rightarrow> st1
      | (Some e, st1) \<Rightarrow>
          settle (Rejected e) (st1\<lparr>responses := responses st1 @ [400], listening := False\<rparr>))"

definition on_timeout :: "auth_state \<Rightarrow> auth_state" where
  "on_timeout st = settle (Rejected (Error ''Authentication timeout'')) (st\<lparr>listening := False\<rparr>)"

datatype auth_event = Request "string option" | Timeout

fun auth_step :: "auth_env \<Rightarrow> auth_state \<Rightarrow> auth_event \<Rightarrow> auth_state" where
  "auth_step env st (Request u) = request_handler env u st"
| "auth_step env st Timeout = on_timeout st"

text \<open>The state after \<open>server.listen\<close>: the promise is pending.\<close>

definition awaiting :: "file_state \<Rightarrow> auth_state" where
  "awaiting f =
     \<lparr>auth_file = f, credentials = None, listening = True, promise = Pending, responses = []\<rparr>"

section \<open>Calls of \<open>initializeGmailClient\<close> in one process\<close>

text \<open>
  A call of \<open>initializeGmailClient\<close> runs until its next \<open>await\<close>; other calls run in
  between. The process is the cached client (\<open>gmailClient\<close>), the calls that are
  suspended, each at its \<open>await\<close>, the number of calls of \<open>server.listen(3000)\<close>, and
  whether the process has exited.

  A call is suspended in \<open>authenticateOAuth2\<close> at \<open>await getAccessToken()\<close>
  (\<open>CheckingToken\<close>), in \<open>getAuthUrlAndWaitForCallback\<close> at \<open>await open(authUrl)\<close>
  (\<open>Opening\<close>), or at the promise of the callback (\<open>AwaitingCallback\<close>); it has returned
  the client (\<open>Finished\<close>) or thrown (\<open>Failed\<close>).
\<close>

datatype flow = CheckingToken | Opening | AwaitingCallback | Finished | Failed

record config =
  service_account :: bool
  oauth_env :: bool

record process =
  gmailClient :: bool
  flows :: "flow list"
  listen_calls :: nat
  exited :: bool

text \<open>
  \<open>Call saved\<close> is a new call, \<open>saved\<close> telling whether \<open>loadToken\<close> gives a token;
  the other events resume the suspended call of the given number.
\<close>

datatype proc_event =
  Call bool | TokenValid nat | TokenExpired nat | Opened nat | Authorized nat | Denied nat

definition at_flow :: "process \<Rightarrow> nat \<Rightarrow> flow \<Rightarrow> bool" where
  "at_flow st k f = (k < length (flows st) \<and> flows st ! k = f)"

text \<open>
  A server holds port 3000 from its \<open>server.listen(3000)\<close> to its \<open>server.close()\<close>,
  which every way out of the promise calls: the port is held while a call is at
  \<open>AwaitingCallback\<close>.
\<close>

definition in_flight :: "process \<Rightarrow> nat" where
  "in_flight st = length (filter (\<lambda>f. f = AwaitingCallback) (flows st))"

definition port_held :: "process \<Rightarrow> bool" where
  "port_held st = (0 < in_flight st)"

text \<open>
  One step of a running process. The server made by \<open>http.createServer\<close> is given no
  \<open>'error'\<close> listener, and the program installs no handler for uncaught exceptions:
  when \<open>server.listen(3000)\<close> is called while the port is held, the \<open>'error'\<close> event
  (\<open>EADDRINUSE\<close>) is unhandled and the process exits. The call that listened is left
  where it was; no second server is bound.
\<close>

fun running_step :: "config \<Rightarrow> process \<Rightarrow> proc_event \<Rightarrow> process" where
  "running_step cfg st (Call saved) =
     (if gmailClient st then st
      else if service_account cfg then st\<lparr>gmailClient := True\<rparr>
      else if \<not> oauth_env cfg then st\<lparr>flows := flows st @ [Failed]\<rparr>
      else if saved then st\<lparr>flows := flows st @ [CheckingToken]\<rparr>
      else st\<lparr>flows := flows st @ [Opening]\<rparr>)"
| "running_step cfg st (TokenValid k) =
     (if at_flow st k CheckingToken
      then st\<lparr>flows := (flows st)[k := Finished], gmailClient := True\<rparr> else st)"
| "running_step cfg st (TokenExpired k) =
     (if at_flow st k CheckingToken then st\<lparr>flows := (flows st)[k := Opening]\<rparr> else st)"
| "running_step cfg st (Opened k) =
     (if at_flow st k Opening then
        (if port_held st
         then st\<lparr>listen_calls := listen_calls st + 1, exited := True\<rparr>
         else st\<lparr>flows := (flows st)[k := AwaitingCallback],
                 listen_calls := listen_calls st + 1\<rparr>)
      else st)"
| "running_step cfg st (Authorized k) =
     (if at_flow st k AwaitingCallback
      then st\<lparr>flows := (flows st)[k := Finished], gmailClient := True\<rparr> else st)"
| "running_step cfg st (Denied k) =
     (if at_flow st k AwaitingCallback then st\<lparr>flows := (flows st)[k := Failed]\<rparr> else st)"

text \<open>Nothing happens in a process that has exited.\<close>

definition proc_step :: "config \<Rightarrow> process \<Rightarrow> proc_event \<Rightarrow> process" where
  "proc_step cfg st ev = (if exited st then st else running_step cfg st ev)"

definition proc_run :: "config \<Rightarrow> proc_event list \<Rightarrow> process \<Rightarrow> process" where
  "proc_run cfg evs st = foldl (proc_step cfg) st evs"

definition fresh_process :: process where
  "fresh_process = \<lparr>gmailClient = False, flows = [], listen_calls = 0, exited = False\<rparr>"

section \<open>Listing: \<open>gmail_search_emails\<close> and \<open>gmail_list_threads\<close>\<close>

record header =
  h_name :: "string option"
  h_value :: "string option"

text \<open>
  \<open>getHeader\<close>; \<open>lower\<close> stands for \<open>String.prototype.toLowerCase\<close>. A header with
  no name matches nothing.
\<close>

definition getHeader :: "(string \<Rightarrow> string) \<Rightarrow> header list \<Rightarrow> string \<Rightarrow> string" where
  "getHeader lower headers nm =
     (case find (\<lambda>h. case h_name h of None \<Rightarrow> False | Some n \<Rightarrow> lower n = lower nm) headers of
        None \<Rightarrow> []
      | Some h \<Rightarrow> or_else (h_value h) [])"

record search_entry =
  se_id :: string
  se_subject :: string
  se_from :: string
  se_date :: string

text \<open>
  \<open>gmail.users.messages.get\<close> for an id throws or gives
  \<open>fullMessage.data.payload?.headers\<close>.
\<close>

type_synonym message_gateway = "string \<Rightarrow> thrown + header list option"

text \<open>The loop over the slice: a message that cannot be retrieved is skipped.\<close>

fun enrich :: "(string \<Rightarrow> string) \<Rightarrow> message_gateway \<Rightarrow> string list \<Rightarrow> search_entry list" where
  "enrich lower get [] = []"
| "enrich lower get (m # ms) =
     (case get m of
        Inl e \<Rightarrow> enrich lower get ms
      | Inr hs \<Rightarrow>
          (let headers = (case hs of None \<Rightarrow> [] | Some l \<Rightarrow> l) in
           \<lparr>se_id = m, se_subject = getHeader lower headers ''Subject'',
            se_from = getHeader lower headers ''From'',
            se_date = getHeader lower headers ''Date''\<rparr> # enrich lower get ms))"

definition search_slice :: "'a list \<Rightarrow> 'a list" where
  "search_slice messages = js_slice messages 0 (min 10 (int (length messages)))"

definition search_results :: "(string \<Rightarrow> string) \<Rightarrow> message_gateway \<Rightarrow> string list \<Rightarrow> search_entry list" where
  "search_results lower get messages = enrich lower get (search_slice messages)"

definition search_line :: "search_entry \<Rightarrow> string" where
  "search_line r =
     ''ID: '' @ se_id r @ [nl] @ ''Subject: '' @ se_subject r @ [nl] @ ''From: '' @ se_from r
     @ [nl] @ ''Date: '' @ se_date r @ [nl] @ ''---''"

definition gmail_search_emails :: "(string \<Rightarrow> string) \<Rightarrow> message_gateway \<Rightarrow> string list \<Rightarrow> string" where
  "gmail_search_emails lower get messages =
     (if length messages = 0 then ''No messages found matching the search query.''
      else
        (let shown = search_results lower get messages;
             resultText = join [nl] (map search_line shown)
         in ''Found '' @ show_nat (length messages) @ '' messages. Showing first ''
            @ show_nat (length shown) @ '':'' @ [nl, nl] @ resultText))"

record thread_entry =
  te_id :: string
  te_messageCount :: nat
  te_subject :: string
  te_participants :: string
  te_lastDate :: string

text \<open>
  \<open>gmail.users.threads.get\<close> for an id throws or gives \<open>threadDetail.data.messages\<close>,
  each message being its \<open>payload?.headers\<close>.
\<close>

type_synonym thread_gateway = "string \<Rightarrow> thrown + header list option list option"

definition thread_entry_of :: "(string \<Rightarrow> string) \<Rightarrow> string \<Rightarrow> header list option list option \<Rightarrow> thread_entry" where
  "thread_entry_of lower tid msgs =
     (let firstMessage = (case msgs of None \<Rightarrow> None | Some [] \<Rightarrow> None | Some (m # _) \<Rightarrow> Some m);
          headers = (case firstMessage of None \<Rightarrow> [] | Some None \<Rightarrow> [] | Some (Some l) \<Rightarrow> l)
      in \<lparr>te_id = tid,
          te_messageCount = (case msgs of None \<Rightarrow> 0 | Some l \<Rightarrow> length l),
          te_subject = or_else (Some (getHeader lower headers ''Subject'')) ''(No Subject)'',
          te_participants = or_else (Some (getHeader lower headers ''From'')) ''Unknown'',
          te_lastDate = or_else (Some (getHeader lower headers ''Date'')) ''No Date''\<rparr>)"

text \<open>The loop of \<open>gmail_list_threads\<close> has no \<open>try\<close>: the first throw leaves it.\<close>

fun enrich_threads :: "(string \<Rightarrow> string) \<Rightarrow> thread_gateway \<Rightarrow> string list \<Rightarrow> thrown + thread_entry list" where
  "enrich_threads lower get [] = Inr []"
| "enrich_threads lower get (t # ts) =
     (case get t of
        Inl e \<Rightarrow> Inl e
      | Inr msgs \<Rightarrow>
          (case enrich_threads lower get ts of
             Inl e \<Rightarrow> Inl e
           | Inr rest \<Rightarrow> Inr (thread_entry_of lower t msgs # rest)))"

definition thread_slice :: "'a list \<Rightarrow> 'a list" where
  "thread_slice threads = js_slice threads 0 10"

definition thread_results :: "(string \<Rightarrow> string) \<Rightarrow> thread_gateway \<Rightarrow> string list \<Rightarrow> thrown + thread_entry list" where
  "thread_results lower get threads = enrich_threads lower get (thread_slice threads)"

definition thread_line :: "thread_entry \<Rightarrow> string" where
  "thread_line r =
     ''Thread ID: '' @ te_id r @ [nl] @ ''Messages: '' @ show_nat (te_messageCount r) @ [nl]
     @ ''Subject: '' @ te_subject r @ [nl] @ ''Participants: '' @ te_participants r @ [nl]
     @ ''Last Activity: '' @ te_lastDate r @ [nl] @ ''---''"

definition handleError :: "thrown \<Rightarrow> string \<Rightarrow> string" where
  "handleError e operation = ''Failed to '' @ operation @ '': '' @ error_message e"

definition gmail_list_threads :: "(string \<Rightarrow> string) \<Rightarrow> thread_gateway \<Rightarrow> string list \<Rightarrow> string" where
  "gmail_list_threads lower get threads =
     (if length threads = 0 then ''No threads found matching the criteria.''
      else
        (case thread_results lower get threads of
           Inl e \<Rightarrow> handleError e ''list threads''
         | Inr shown \<Rightarrow>
             ''Found '' @ show_nat (length threads) @ '' threads. Showing first ''
             @ show_nat (length shown) @ '':'' @ [nl, nl]
             @ join [nl] (map thread_line shown)))"

section \<open>Example inputs and reference functions\<close>

text \<open>The options object with every field absent.\<close>

definition no_options :: options where
  "no_options = \<lparr>cc = None, bcc = None, htmlBody = None, mimeType = None,
                  inReplyTo = None, threadId = None\<rparr>"

text \<open>
  What the walk is expected to add to its accumulators for a list of parts taken in
  document order.
\<close>

definition collect :: "(string \<Rightarrow> string) \<Rightarrow> part list \<Rightarrow> content \<Rightarrow> content" where
  "collect dec ps acc =
     \<lparr>textContent = textContent acc @ concat (map (decoded_body dec ''text/plain'') ps),
      htmlContent = htmlContent acc @ concat (map (decoded_body dec ''text/html'') ps),
      attachments = attachments acc @ map descriptor (filter carries_attachment ps)\<rparr>"

text \<open>A credential file that gives no token: absent, unreadable, or not JSON.\<close>

definition unusable :: "(string \<Rightarrow> io_error + 'j option) \<Rightarrow> world \<Rightarrow> bool" where
  "unusable parse w =
     (case token_file w of Absent \<Rightarrow> True | Unreadable \<Rightarrow> True | Content s \<Rightarrow> isl (parse s))"

text \<open>
  An environment for examples: only the callback with \<open>code=abc\<close> carries a code, and
  the exchange of that code succeeds.
\<close>

definition denying_env :: auth_env where
  "denying_env =
     \<lparr>query_code = (\<lambda>u. if u = ''/oauth/callback?code=abc'' then Some ''abc'' else None),
      getToken = (\<lambda>c. if c = ''abc'' then Inr ''{}'' else Inl (Error ''invalid_grant'')),
      writeFileSync = (\<lambda>t. None)\<rparr>"

text \<open>A process set up for the browser flow: no service account, both variables set.\<close>

definition interactive :: config where
  "interactive = \<lparr>service_account = False, oauth_env = True\<rparr>"

text \<open>Inputs for examples of the batch engine.\<close>

definition three_ids :: "string list" where
  "three_ids = [''m1'', ''m2'', ''m3'']"

definition flaky :: gateway where
  "flaky n mid = (if mid = ''m2'' then Some (Error ''quota'') else None)"

text \<open>Twelve ids, for examples of the listing tools.\<close>

definition twelve_ids :: "string list" where
  "twelve_ids = [''a'', ''b'', ''c'', ''d'', ''e'', ''f'', ''g'', ''h'', ''i'', ''j'', ''k'', ''l'']"

text \<open>
  A message three levels deep: an alternative pair, and a container whose inner
  container holds an attachment, followed by an attachment with no name and no type.
\<close>

definition leaf :: "string option \<Rightarrow> string option \<Rightarrow> body_t \<Rightarrow> part" where
  "leaf mt fname b = Part mt fname (Some b) None"

definition nested_message :: part where
  "nested_message =
     Part (Some ''multipart/mixed'') None None (Some
       [Part (Some ''multipart/alternative'') None None (Some
          [leaf (Some ''text/plain'') None
             \<lparr>data = Some ''aGk'', attachmentId = None, body_size = Some 2\<rparr>,
           leaf (Some ''text/html'') None
             \<lparr>data = Some ''PGk-'', attachmentId = None, body_size = Some 3\<rparr>]),
        Part (Some ''multipart/mixed'') None None (Some
          [Part (Some ''multipart/related'') None None (Some
             [leaf (Some ''application/pdf'') (Some ''a.pdf'')
                \<lparr>data = None, attachmentId = Some ''A1'', body_size = Some 10\<rparr>]),
           leaf None None
             \<lparr>data = None, attachmentId = Some ''A2'', body_size = None\<rparr>])])"

section \<open>Verified properties\<close>

lemma index_enum: "\<forall>n \<in> {0..<64::nat}. b64url_index (b64url_alphabet ! n) = n"
  by code_simp

lemma urlsafe_enum: "\<forall>n \<in> {0..<64::nat}. urlsafe [b64_char n] = [b64url_alphabet ! n]"
  by code_simp

lemma urlsafe_append: "urlsafe (xs @ ys) = urlsafe xs @ urlsafe ys"
  by (simp add: urlsafe_def replace_all_def)

lemma urlsafe_pad: "urlsafe [CHR ''=''] = []"
  by (simp add: urlsafe_def replace_all_def)

lemma urlsafe_Nil: "urlsafe [] = []"
  by (simp add: urlsafe_def replace_all_def)

lemma urlsafe_char: "n < 64 \<Longrightarrow> urlsafe (b64_char n # s) = (b64url_alphabet ! n) # urlsafe s"
  using urlsafe_enum urlsafe_append [of "[b64_char n]" s] by simp

lemma urlsafe_pad_Cons: "urlsafe (CHR ''='' # s) = urlsafe s"
  using urlsafe_append [of "[CHR ''='']" s] by (simp add: urlsafe_pad)

lemma index_char: "n < 64 \<Longrightarrow> b64url_index (b64url_alphabet ! n) = n"
  using index_enum by simp

lemma sextet_bounds:
  fixes a b c :: nat
  shows "a < 256 \<Longrightarrow> a div 4 < 64"
    and "b < 256 \<Longrightarrow> (a mod 4) * 16 + b div 16 < 64"
    and "c < 256 \<Longrightarrow> (b mod 16) * 4 + c div 64 < 64"
    and "c mod 64 < 64" and "(a mod 4) * 16 < 64" and "(b mod 16) * 4 < 64"
  by auto

lemma triple_back:
  fixes a b c :: nat
  shows "b < 256 \<Longrightarrow> a div 4 * 4 + ((a mod 4) * 16 + b div 16) div 16 = a"
    and "b < 256 \<Longrightarrow> c < 256 \<Longrightarrow>
         (((a mod 4) * 16 + b div 16) mod 16) * 16 + ((b mod 16) * 4 + c div 64) div 4 = b"
    and "c < 256 \<Longrightarrow> (((b mod 16) * 4 + c div 64) mod 4) * 64 + c mod 64 = c"
    and "a div 4 * 4 + ((a mod 4) * 16) div 16 = a"
    and "b < 256 \<Longrightarrow> (((a mod 4) * 16 + b div 16) mod 16) * 16 + ((b mod 16) * 4) div 4 = b"
  by simp_all

lemma decode_group3:
  assumes "a < 256" "b < 256" "c < 256"
  shows "decode_sextets (map b64url_index (urlsafe (base64_bytes (a # b # c # rest)))) =
         a # b # c # decode_sextets (map b64url_index (urlsafe (base64_bytes rest)))"
proof -
  let ?s1 = "a div 4" and ?s2 = "(a mod 4) * 16 + b div 16"
  let ?s3 = "(b mod 16) * 4 + c div 64" and ?s4 = "c mod 64"
  let ?R = "map b64url_index (urlsafe (base64_bytes rest))"
  have bnd: "?s1 < 64" "?s2 < 64" "?s3 < 64" "?s4 < 64"
    using assms by (simp_all add: sextet_bounds)
  have "map b64url_index (urlsafe (base64_bytes (a # b # c # rest))) =
        ?s1 # ?s2 # ?s3 # ?s4 # ?R"
    using bnd by (simp add: urlsafe_char index_char)
  then have "decode_sextets (map b64url_index (urlsafe (base64_bytes (a # b # c # rest)))) =
             [?s1 * 4 + ?s2 div 16, (?s2 mod 16) * 16 + ?s3 div 4, (?s3 mod 4) * 64 + ?s4]
             @ decode_sextets ?R"
    by (simp only: decode_sextets.simps)
  also have "?s1 * 4 + ?s2 div 16 = a" using assms by (simp add: triple_back)
  also have "(?s2 mod 16) * 16 + ?s3 div 4 = b" using assms by (simp add: triple_back)
  also have "(?s3 mod 4) * 64 + ?s4 = c" using assms by (simp add: triple_back)
  finally show ?thesis by (simp only: append.simps)
qed

lemma decode_group2:
  assumes "a < 256" "b < 256"
  shows "decode_sextets (map b64url_index (urlsafe (base64_bytes [a, b]))) = [a, b]"
proof -
  let ?s1 = "a div 4" and ?s2 = "(a mod 4) * 16 + b div 16" and ?s3 = "(b mod 16) * 4"
  have bnd: "?s1 < 64" "?s2 < 64" "?s3 < 64"
    using assms by (simp_all add: sextet_bounds)
  have "map b64url_index (urlsafe (base64_bytes [a, b])) = [?s1, ?s2, ?s3]"
    using bnd by (simp add: urlsafe_char urlsafe_pad_Cons urlsafe_Nil index_char)
  then have "decode_sextets (map b64url_index (urlsafe (base64_bytes [a, b]))) =
             [?s1 * 4 + ?s2 div 16, (?s2 mod 16) * 16 + ?s3 div 4]"
    by (simp only: decode_sextets.simps)
  also have "?s1 * 4 + ?s2 div 16 = a" using assms by (simp add: triple_back)
  also have "(?s2 mod 16) * 16 + ?s3 div 4 = b" using assms by (simp add: triple_back)
  finally show ?thesis .
qed

lemma decode_group1:
  assumes "a < 256"
  shows "decode_sextets (map b64url_index (urlsafe (base64_bytes [a]))) = [a]"
proof -
  let ?s1 = "a div 4" and ?s2 = "(a mod 4) * 16"
  have bnd: "?s1 < 64" "?s2 < 64"
    using assms by (simp_all add: sextet_bounds)
  have "map b64url_index (urlsafe (base64_bytes [a])) = [?s1, ?s2]"
    using bnd by (simp add: urlsafe_char urlsafe_pad_Cons urlsafe_Nil index_char)
  then have "decode_sextets (map b64url_index (urlsafe (base64_bytes [a]))) =
             [?s1 * 4 + ?s2 div 16]"
    by (simp only: decode_sextets.simps)
  also have "?s1 * 4 + ?s2 div 16 = a" using assms by (simp add: triple_back)
  finally show ?thesis .
qed

lemma decode_encode_bytes:
  "\<forall>x \<in> set bs. x < 256 \<Longrightarrow>
   decode_sextets (map b64url_index (urlsafe (base64_bytes bs))) = bs"
proof (induction bs rule: base64_bytes.induct)
  case (1 a b c rest)
  then show ?case by (simp add: decode_group3 del: base64_bytes.simps)
next
  case (2 a b)
  then show ?case by (simp add: decode_group2 del: base64_bytes.simps)
next
  case (3 a)
  then show ?case by (simp add: decode_group1 del: base64_bytes.simps)
next
  case 4
  then show ?case by (simp add: urlsafe_Nil)
qed

lemma decode_urlsafe_base64: "base64url_decode (urlsafe (toString_base64 s)) = s"
proof -
  have "\<forall>x \<in> set (map of_char s). x < (256::nat)" by simp
  then show ?thesis
    unfolding base64url_decode_def toString_base64_def
    by (simp add: decode_encode_bytes map_idI)
qed

lemma one_pass_urlsafe:
  "concat (map (\<lambda>x. if x = CHR ''+'' then ''-'' else if x = CHR ''/'' then ''_''
                       else if x = CHR ''='' then [] else [x]) t) = urlsafe t"
  unfolding urlsafe_def replace_all_def
  by (induction t) auto

lemma base64url_urlsafe: "base64url s = urlsafe (toString_base64 s)"
  unfolding base64url_def by (rule one_pass_urlsafe)

lemma join_snoc: "join sep (hs @ [x]) = (if hs = [] then x else join sep hs @ sep @ x)"
  by (induction sep hs rule: join.induct) auto

lemma strip_headers_blank_line:
  "strip_headers h = None \<Longrightarrow> h = [] \<or> last h \<noteq> nl \<Longrightarrow>
   strip_headers (h @ [nl, nl] @ b) = Some b"
  by (induction h rule: strip_headers.induct) (auto split: if_splits)

lemma last_content_type:
  "last (join [nl] (hs @ [''Content-Type: text/plain; charset=utf-8''])) \<noteq> nl"
  by (simp add: join_snoc nl_def)

text \<open>
  Claim C2. With \<open>mimeType = 'multipart/alternative'\<close> and no (or an empty)
  \<open>htmlBody\<close>, the message is single-part: the header lines are the address headers
  followed by \<open>Content-Type: text/plain; charset=utf-8\<close>, and the content is exactly
  the plain body; the payload is the URL-safe base64 encoding of that message.
\<close>

theorem alternative_without_html_is_plain:
  assumes "mimeType opts = Some ''multipart/alternative''" and "\<not> truthy (htmlBody opts)"
  shows "email_parts now to subject body opts =
           (address_headers to subject opts @ [''Content-Type: text/plain; charset=utf-8''], body)
         \<and> createEmailMessage now to subject body opts =
             base64url (join [nl] (address_headers to subject opts
                                   @ [''Content-Type: text/plain; charset=utf-8''])
                        @ [nl, nl] @ body)"
  using assms
  by (simp add: createEmailMessage_def base64url_urlsafe email_text_def email_parts_def
      default_mimeType_def)

theorem alternative_without_html_is_plain_witness:
  "email_parts 0 [''a@b.c''] ''Hi'' ''plain'' (no_options\<lparr>mimeType := Some ''multipart/alternative''\<rparr>) =
     ([''To: a@b.c'', ''Subject: Hi'', ''Content-Type: text/plain; charset=utf-8''], ''plain'')"
proof -
  let ?opts = "no_options\<lparr>mimeType := Some ''multipart/alternative''\<rparr>"
  have m: "mimeType ?opts = Some ''multipart/alternative''" by (simp add: no_options_def)
  have h: "\<not> truthy (htmlBody ?opts)" by (simp add: no_options_def truthy_def)
  from alternative_without_html_is_plain [OF m h, of 0 "[''a@b.c'']" "''Hi''" "''plain''"]
  have "email_parts 0 [''a@b.c''] ''Hi'' ''plain'' ?opts =
          (address_headers [''a@b.c''] ''Hi'' ?opts
           @ [''Content-Type: text/plain; charset=utf-8''], ''plain'')"
    by (rule conjunct1)
  then show ?thesis
    by (simp add: address_headers_def no_options_def default_list_def truthy_def)
qed

text \<open>
  Claim C1 (alternative mode with an HTML body gives a two-part message). The first test
  of the source, \<open>mimeType === 'text/html' || htmlBody\<close>, holds whenever \<open>htmlBody\<close>
  is truthy, so the \<open>multipart/alternative\<close> branch is never taken. For the call with
  \<open>mimeType = 'multipart/alternative'\<close>, body \<open>plain\<close> and HTML body
  \<open><p>rich</p>\<close> the function builds a single \<open>text/html\<close> part whose content is
  the HTML body: there is no boundary, and the plain body is not in the message.
\<close>

theorem alternative_with_html_is_single_part:
  "email_parts 0 [''a@b.c''] ''Hi'' ''plain''
     (no_options\<lparr>htmlBody := Some ''<p>rich</p>'', mimeType := Some ''multipart/alternative''\<rparr>) =
     ([''To: a@b.c'', ''Subject: Hi'', ''Content-Type: text/html; charset=utf-8''], ''<p>rich</p>'')"
  by (simp add: email_parts_def address_headers_def no_options_def default_list_def truthy_def
      default_mimeType_def or_else_def)

lemma multipart_branch_unreachable:
  "truthy (htmlBody opts) \<Longrightarrow>
   email_parts now to subject body opts =
     (address_headers to subject opts @ [''Content-Type: text/html; charset=utf-8''],
      the (htmlBody opts))"
  by (auto simp: email_parts_def truthy_def or_else_def Let_def split: option.splits)

text \<open>
  Claim C3, as stated, fails. In plain mode with an HTML body present the content of the
  message is the HTML body, so decoding the payload and dropping the headers gives
  \<open><p>rich</p>\<close> and not the plain body \<open>plain\<close>.
\<close>

theorem plain_with_html_counterexample:
  "strip_headers (base64url_decode (createEmailMessage 0 [''a@b.c''] ''Hi'' ''plain''
      (no_options\<lparr>htmlBody := Some ''<p>rich</p>'', mimeType := Some ''text/plain''\<rparr>)))
   = Some ''<p>rich</p>''
   \<and> ''<p>rich</p>'' \<noteq> ''plain''"
  by (simp add: createEmailMessage_def decode_urlsafe_base64 email_text_def email_parts_def
      address_headers_def no_options_def default_list_def truthy_def default_mimeType_def
      or_else_def nl_def)

lemma blank_line_in_subject:
  "strip_headers (base64url_decode (createEmailMessage 0 [''a@b.c''] [CHR ''H'', nl, nl, CHR ''i''] ''plain''
      no_options))
   = Some ''i\<newline>Content-Type: text/plain; charset=utf-8\<newline>\<newline>plain''"
  by (simp add: createEmailMessage_def decode_urlsafe_base64 email_text_def email_parts_def
      address_headers_def no_options_def default_list_def truthy_def default_mimeType_def
      or_else_def nl_def)

text \<open>
  Claim C3, amended. For every call the returned value is the URL-safe base64 encoding of
  the header lines joined by line feeds, a blank line and the content. In plain mode
  (\<open>mimeType\<close> is \<open>text/plain\<close> or absent), when \<open>htmlBody\<close> is absent or empty
  and the joined header lines contain no blank line, decoding the payload and dropping
  everything up to and including the first blank line gives exactly the plain body.
\<close>

theorem plain_payload_roundtrip:
  "createEmailMessage now to subject body opts =
     base64url (join [nl] (fst (email_parts now to subject body opts)) @ [nl, nl]
                @ snd (email_parts now to subject body opts))
   \<and> (default_mimeType (mimeType opts) = ''text/plain'' \<and> \<not> truthy (htmlBody opts)
        \<and> strip_headers (join [nl] (fst (email_parts now to subject body opts))) = None
      \<longrightarrow> strip_headers (base64url_decode (createEmailMessage now to subject body opts))
            = Some body)"
proof (intro conjI impI)
  show "createEmailMessage now to subject body opts =
     base64url (join [nl] (fst (email_parts now to subject body opts)) @ [nl, nl]
                @ snd (email_parts now to subject body opts))"
    by (simp add: createEmailMessage_def base64url_urlsafe email_text_def split: prod.splits)
next
  assume a: "default_mimeType (mimeType opts) = ''text/plain'' \<and> \<not> truthy (htmlBody opts)
        \<and> strip_headers (join [nl] (fst (email_parts now to subject body opts))) = None"
  let ?hs = "address_headers to subject opts @ [''Content-Type: text/plain; charset=utf-8'']"
  have parts: "email_parts now to subject body opts = (?hs, body)"
    using a by (simp add: email_parts_def)
  have "strip_headers (join [nl] ?hs) = None"
    using a by (simp add: parts)
  then have "strip_headers (join [nl] ?hs @ [nl, nl] @ body) = Some body"
    using last_content_type by (intro strip_headers_blank_line) auto
  then show "strip_headers (base64url_decode (createEmailMessage now to subject body opts))
               = Some body"
    by (simp add: createEmailMessage_def decode_urlsafe_base64 email_text_def parts)
qed

theorem plain_payload_roundtrip_witness:
  "createEmailMessage 0 [''a@b.c''] ''Hi'' ''plain'' no_options =
     ''VG86IGFAYi5jClN1YmplY3Q6IEhpCkNvbnRlbnQtVHlwZTogdGV4dC9wbGFpbjsgY2hhcnNldD11dGYtOAoKcGxhaW4''
   \<and> strip_headers (base64url_decode (createEmailMessage 0 [''a@b.c''] ''Hi'' ''plain'' no_options))
     = Some ''plain''"
proof -
  let ?P = "email_parts 0 [''a@b.c''] ''Hi'' ''plain'' no_options"
  have parts: "?P =
      ([''To: a@b.c'', ''Subject: Hi'', ''Content-Type: text/plain; charset=utf-8''], ''plain'')"
    by (simp add: email_parts_def address_headers_def no_options_def default_list_def truthy_def
      default_mimeType_def)
  have m: "default_mimeType (mimeType no_options) = ''text/plain''"
    by (simp add: no_options_def default_mimeType_def)
  have h: "\<not> truthy (htmlBody no_options)" by (simp add: no_options_def truthy_def)
  have s: "strip_headers (join [nl] (fst ?P)) = None"
    unfolding parts by (simp add: nl_def)
  have v: "base64url (join [nl] (fst ?P) @ [nl, nl] @ snd ?P) =
    ''VG86IGFAYi5jClN1YmplY3Q6IEhpCkNvbnRlbnQtVHlwZTogdGV4dC9wbGFpbjsgY2hhcnNldD11dGYtOAoKcGxhaW4''"
    unfolding parts by code_simp
  note r = plain_payload_roundtrip [of 0 "[''a@b.c'']" "''Hi''" "''plain''" no_options]
  from r have "createEmailMessage 0 [''a@b.c''] ''Hi'' ''plain'' no_options =
     base64url (join [nl] (fst ?P) @ [nl, nl] @ snd ?P)" by (rule conjunct1)
  then have "createEmailMessage 0 [''a@b.c''] ''Hi'' ''plain'' no_options =
    ''VG86IGFAYi5jClN1YmplY3Q6IEhpCkNvbnRlbnQtVHlwZTogdGV4dC9wbGFpbjsgY2hhcnNldD11dGYtOAoKcGxhaW4''"
    using v by (rule trans)
  moreover from r m h s have "strip_headers (base64url_decode
      (createEmailMessage 0 [''a@b.c''] ''Hi'' ''plain'' no_options)) = Some ''plain''"
    by blast
  ultimately show ?thesis by (rule conjI)
qed

text \<open>
  Claim C10. \<open>loadToken\<close> never throws and never changes the token file. When the file
  is absent, unreadable or not valid JSON it returns \<open>null\<close>, as for an absent file;
  otherwise it returns the parsed value.
\<close>

theorem loadToken_never_throws:
  "(\<exists>v. snd (loadToken parse w) = Inr v)
   \<and> token_file (fst (loadToken parse w)) = token_file w
   \<and> (if unusable parse w then snd (loadToken parse w) = Inr None
      else snd (loadToken parse w) = parse (case token_file w of Content s \<Rightarrow> s))"
  by (cases "token_file w")
     (auto simp: loadToken_def loadToken_try_def existsSync_def readFileSync_def unusable_def
           split: sum.splits option.splits)

theorem loadToken_never_throws_witness:
  "loadToken (\<lambda>s. Inl ParseFailure :: io_error + unit option)
     \<lparr>token_file = Content ''{not json'', stderr = []\<rparr> =
   (\<lparr>token_file = Content ''{not json'', stderr = [''Error loading token:'']\<rparr>, Inr None)"
proof -
  let ?parse = "\<lambda>s::string. Inl ParseFailure :: io_error + unit option"
  let ?w = "\<lparr>token_file = Content ''{not json'', stderr = []\<rparr>"
  have u: "unusable ?parse ?w" by (simp add: unusable_def)
  from loadToken_never_throws [of ?parse ?w] u
  have "snd (loadToken ?parse ?w) = Inr None" by simp
  moreover have "fst (loadToken ?parse ?w) =
      \<lparr>token_file = Content ''{not json'', stderr = [''Error loading token:'']\<rparr>"
    by (simp add: loadToken_def loadToken_try_def existsSync_def readFileSync_def)
  ultimately show ?thesis by (simp add: prod_eq_iff)
qed

lemma collect_Nil: "collect dec [] acc = acc"
  by (simp add: collect_def)

lemma collect_append: "collect dec (xs @ ys) acc = collect dec ys (collect dec xs acc)"
  by (simp add: collect_def)

lemma collect_Cons: "collect dec (x # xs) acc = collect dec xs (collect dec [x] acc)"
  using collect_append [of dec "[x]" xs acc] by simp

lemma fold_processPayload:
  assumes "\<And>x a. x \<in> set ps \<Longrightarrow> processPayload dec x a = collect dec (preorder x) a"
  shows "fold (processPayload dec) ps acc = collect dec (concat (map preorder ps)) acc"
  using assms by (induction ps arbitrary: acc) (simp_all add: collect_Nil collect_append)

lemma processPayload_head:
  "collect dec [Part mt fname b ps] acc =
     (let acc1 =
            (if truthy (body_data b) then
               (let c = dec (the (body_data b)) in
                if mt = Some ''text/plain'' then acc\<lparr>textContent := textContent acc @ c\<rparr>
                else if mt = Some ''text/html'' then acc\<lparr>htmlContent := htmlContent acc @ c\<rparr>
                else acc)
             else acc)
      in (if truthy (body_attachmentId b)
             then acc1\<lparr>attachments := attachments acc1 @ [descriptor (Part mt fname b ps)]\<rparr>
             else acc1))"
  by (simp add: collect_def decoded_body_def carries_attachment_def Let_def)

lemma processPayload_collect: "processPayload dec p acc = collect dec (preorder p) acc"
proof (induction dec p acc rule: processPayload.induct)
  case (1 dec mt fname b ps acc)
  show ?case
  proof (cases ps)
    case None
    then show ?thesis
      by (simp add: processPayload_head Let_def)
  next
    case (Some subparts)
    have "\<And>x a. x \<in> set subparts \<Longrightarrow> processPayload dec x a = collect dec (preorder x) a"
      using "1.IH" [OF refl refl Some] by simp
    then have "\<And>a. fold (processPayload dec) subparts a =
                   collect dec (concat (map preorder subparts)) a"
      by (rule fold_processPayload)
    then show ?thesis
      using Some
      by (simp add: collect_Cons [of dec "Part mt fname b (Some subparts)"] processPayload_head Let_def)
  qed
qed

text \<open>
  Claim C4. For every part tree, \<open>extractEmailContent\<close> returns as text the
  concatenation, in pre-order, of the decoded inline bodies of the parts of type
  \<open>text/plain\<close>, as html the same for \<open>text/html\<close>, and as attachments one descriptor
  for each part with an attachment id, in pre-order; the file name defaults to
  \<open>attachment-\<close> followed by the id, the type to \<open>application/octet-stream\<close> and the
  size to 0 (see \<open>descriptor\<close>).
\<close>

theorem extract_document_order:
  "extractEmailContent dec payload =
     \<lparr>textContent = concat (map (decoded_body dec ''text/plain'') (preorder payload)),
      htmlContent = concat (map (decoded_body dec ''text/html'') (preorder payload)),
      attachments = map descriptor (filter carries_attachment (preorder payload))\<rparr>"
  by (simp add: extractEmailContent_def processPayload_collect collect_def)

theorem extract_document_order_witness:
  "extractEmailContent base64url_decode nested_message =
     \<lparr>textContent = ''hi'', htmlContent = ''<i>'',
      attachments =
        [\<lparr>att_id = ''A1'', att_filename = ''a.pdf'', att_mimeType = ''application/pdf'',
          att_size = 10\<rparr>,
         \<lparr>att_id = ''A2'', att_filename = ''attachment-A2'',
          att_mimeType = ''application/octet-stream'', att_size = 0\<rparr>]\<rparr>"
proof -
  have d1: "base64url_decode ''aGk'' = ''hi''" by code_simp
  have d2: "base64url_decode ''PGk-'' = ''<i>''" by code_simp
  show ?thesis
    unfolding extract_document_order [of base64url_decode nested_message]
    by (simp add: nested_message_def leaf_def decoded_body_def carries_attachment_def
        descriptor_def body_data_def body_attachmentId_def truthy_def or_else_def Let_def d1 d2)
qed

lemma run_chunk_append:
  "run_chunk gw n (xs @ ys) = run_chunk gw n xs @ run_chunk gw (n + length xs) ys"
  by (induction xs arbitrary: n) simp_all

lemma run_chunk_enumerate:
  "run_chunk gw n xs = map (\<lambda>(k, mid). attempt gw k mid) (enumerate n xs)"
  by (induction xs arbitrary: n) simp_all

lemma length_run_chunk: "length (run_chunk gw n xs) = length xs"
  by (induction xs arbitrary: n) simp_all

lemma messageId_attempt: "messageId (attempt gw n mid) = mid"
  by (simp add: attempt_def split: option.splits)

lemma success_attempt: "success (attempt gw n mid) = (gw n mid = None)"
  by (simp add: attempt_def split: option.splits)

lemma messageId_run_chunk: "map messageId (run_chunk gw n xs) = xs"
  by (induction xs arbitrary: n) (simp_all add: messageId_attempt)

lemma nth_run_chunk: "k < length xs \<Longrightarrow> run_chunk gw n xs ! k = attempt gw (n + k) (xs ! k)"
proof (induction xs arbitrary: n k)
  case Nil
  then show ?case by simp
next
  case (Cons x xs)
  then show ?case by (cases k) simp_all
qed

lemma successful_failed: "successful rs + failed rs = length rs"
  unfolding successful_def failed_def by (induction rs) simp_all

lemma js_slice_forward:
  assumes "0 < b" "j < length xs"
  shows "js_slice xs (int j) (int j + b) = take (nat b) (drop j xs)"
proof -
  have "nat (min (int j + b) (int (length xs)) - int j) = min (nat b) (length xs - j)"
    using assms by (simp add: min_def) linarith
  then show ?thesis
    using assms by (simp add: js_slice_def Let_def min_def)
qed

lemma loop_body_forward:
  assumes "0 < b" "j < length ids"
  shows "loop_body gw ids b
           \<lparr>idx = int j, results = run_chunk gw 0 (take j ids), calls = j\<rparr> =
         \<lparr>idx = int (j + nat b), results = run_chunk gw 0 (take (j + nat b) ids),
          calls = min (j + nat b) (length ids)\<rparr>"
proof -
  have t: "take (j + nat b) ids = take j ids @ take (nat b) (drop j ids)"
    by (simp add: take_add)
  have l: "length (take j ids) = j" using assms by simp
  have c: "j + length (take (nat b) (drop j ids)) = min (j + nat b) (length ids)"
    using assms by simp
  have i: "int j + b = int (j + nat b)" using assms by simp
  have "loop_body gw ids b
           \<lparr>idx = int j, results = run_chunk gw 0 (take j ids), calls = j\<rparr> =
        \<lparr>idx = int j + b,
         results = run_chunk gw 0 (take j ids) @ run_chunk gw j (take (nat b) (drop j ids)),
         calls = j + length (take (nat b) (drop j ids))\<rparr>"
    using assms by (simp add: loop_body_def current_batch_def js_slice_forward Let_def)
  also have "run_chunk gw 0 (take j ids) @ run_chunk gw j (take (nat b) (drop j ids)) =
             run_chunk gw 0 (take (j + nat b) ids)"
    unfolding t run_chunk_append l by simp
  finally show ?thesis unfolding c i .
qed

lemma batch_loop_forward:
  assumes "0 < b"
  shows "\<exists>st. batch_loop gw ids b
           \<lparr>idx = int j, results = run_chunk gw 0 (take j ids), calls = min j (length ids)\<rparr> = Some st
         \<and> results st = run_chunk gw 0 ids"
proof (induction "length ids - j" arbitrary: j rule: less_induct)
  case less
  show ?case
  proof (cases "j < length ids")
    case False
    then show ?thesis by (subst batch_loop.simps) simp
  next
    case True
    have "length ids - (j + nat b) < length ids - j" using True assms by linarith
    from less [OF this] obtain st where
      st: "batch_loop gw ids b
             \<lparr>idx = int (j + nat b), results = run_chunk gw 0 (take (j + nat b) ids),
              calls = min (j + nat b) (length ids)\<rparr> = Some st"
      "results st = run_chunk gw 0 ids"
      by blast
    have m: "min j (length ids) = j" using True by simp
    show ?thesis
      using True st
      by (subst batch_loop.simps) (simp add: m loop_body_forward [OF assms True])
  qed
qed

lemma run_batches_forward:
  assumes "0 < b"
  shows "run_batches gw ids b = Some (run_chunk gw 0 ids)"
  using batch_loop_forward [OF assms, of gw ids 0]
  by (auto simp: run_batches_def initial_state_def)

lemma js_slice_backward:
  assumes "b \<le> 0" "i \<le> 0"
  shows "js_slice xs i (i + b) =
           (if i = 0 \<and> b < 0 then take (length xs - nat (- b)) xs else [])"
proof -
  have "b < 0 \<Longrightarrow> nat (int (length xs) + b) = length xs - nat (- b)" by linarith
  then show ?thesis
    using assms by (auto simp: js_slice_def Let_def min_def max_def)
qed

lemma batch_loop_stuck:
  assumes "batch_loop gw ids b st = Some y"
  shows "\<not> (b \<le> 0 \<and> idx st \<le> 0 \<and> ids \<noteq> [])"
proof (rule batch_loop.raw_induct
    [where P = "\<lambda>gw ids b st y. \<not> (b \<le> 0 \<and> idx st \<le> 0 \<and> ids \<noteq> [])", OF _ assms])
  fix f :: "gateway \<Rightarrow> string list \<Rightarrow> int \<Rightarrow> loop_state \<Rightarrow> loop_state option"
  fix gw ids b st y
  assume IH: "\<And>gw ids b st y. f gw ids b st = Some y \<Longrightarrow>
                \<not> (b \<le> 0 \<and> idx st \<le> 0 \<and> ids \<noteq> [])"
  assume step: "(if idx st < int (length ids) then f gw ids b (loop_body gw ids b st)
                 else Some st) = Some y"
  show "\<not> (b \<le> 0 \<and> idx st \<le> 0 \<and> ids \<noteq> [])"
  proof
    assume a: "b \<le> 0 \<and> idx st \<le> 0 \<and> ids \<noteq> []"
    then have "idx st < int (length ids)" by (cases ids) auto
    with step have "f gw ids b (loop_body gw ids b st) = Some y" by simp
    from IH [OF this] a show False by (simp add: loop_body_def Let_def)
  qed
qed

lemma batch_loop_diverges:
  "b \<le> 0 \<Longrightarrow> ids \<noteq> [] \<Longrightarrow> batch_loop gw ids b initial_state = None"
  using batch_loop_stuck [of gw ids b initial_state]
  by (cases "batch_loop gw ids b initial_state") (auto simp: initial_state_def)

text \<open>
  Claim C5. For every list of ids and every batch size greater than 0, the loop returns,
  and its results are one entry per id in the order of the ids: entry \<open>k\<close> carries the
  \<open>k\<close>-th id and is a success exactly when the \<open>k\<close>-th gateway call returned, whatever
  the other calls did. The number of entries is the number of ids, and the successes and
  failures counted by both tools add up to it.
\<close>

theorem batch_report_complete:
  assumes "0 < batchSize"
  shows "run_batches gw messageIds batchSize = Some (expected_results gw messageIds)
         \<and> length (expected_results gw messageIds) = length messageIds
         \<and> map messageId (expected_results gw messageIds) = messageIds
         \<and> successful (expected_results gw messageIds) + failed (expected_results gw messageIds)
             = length messageIds
         \<and> (\<forall>k < length messageIds.
               success (expected_results gw messageIds ! k) = (gw k (messageIds ! k) = None))
         \<and> gmail_batch_modify_emails gw messageIds batchSize =
             Some (''Batch modify completed. Successfully modified: ''
                   @ show_nat (successful (expected_results gw messageIds)) @ '', Failed: ''
                   @ show_nat (failed (expected_results gw messageIds)))
         \<and> gmail_batch_delete_emails gw messageIds batchSize =
             Some (''Batch delete completed. Successfully deleted: ''
                   @ show_nat (successful (expected_results gw messageIds)) @ '', Failed: ''
                   @ show_nat (failed (expected_results gw messageIds)))"
proof -
  have e: "expected_results gw messageIds = run_chunk gw 0 messageIds"
    by (simp add: expected_results_def run_chunk_enumerate)
  have r: "run_batches gw messageIds batchSize = Some (run_chunk gw 0 messageIds)"
    using assms by (rule run_batches_forward)
  show ?thesis
    unfolding e
    by (simp add: r gmail_batch_modify_emails_def gmail_batch_delete_emails_def
        length_run_chunk messageId_run_chunk successful_failed nth_run_chunk success_attempt)
qed

theorem batch_report_complete_witness:
  "run_batches flaky three_ids 2 =
     Some [\<lparr>messageId = ''m1'', success = True, error_text = None\<rparr>,
           \<lparr>messageId = ''m2'', success = False, error_text = Some ''quota''\<rparr>,
           \<lparr>messageId = ''m3'', success = True, error_text = None\<rparr>]"
proof -
  have p: "(0::int) < 2" by simp
  have e: "expected_results flaky three_ids =
     [\<lparr>messageId = ''m1'', success = True, error_text = None\<rparr>,
      \<lparr>messageId = ''m2'', success = False, error_text = Some ''quota''\<rparr>,
      \<lparr>messageId = ''m3'', success = True, error_text = None\<rparr>]"
    by (simp add: expected_results_def three_ids_def enumerate_eq_zip attempt_def flaky_def
        error_message_def upt_rec)
  from batch_report_complete [OF p, of flaky three_ids]
  have "run_batches flaky three_ids 2 = Some (expected_results flaky three_ids)"
    by (rule conjunct1)
  then show ?thesis unfolding e .
qed

text \<open>
  Claim C9, as stated, fails in one detail: with a negative batch size the slice of the
  first iteration is \<open>messageIds.slice(0, batchSize)\<close>, which is not empty when the list
  is longer than the absolute value of the batch size. For three ids and batch size
  \<open>-1\<close> the first iteration processes the first two ids.
\<close>

theorem negative_batch_counterexample:
  "current_batch [''m1'', ''m2'', ''m3''] (- 1) initial_state = [''m1'', ''m2'']"
  by (simp add: current_batch_def js_slice_def initial_state_def)

text \<open>
  Claim C9, amended. The loop returns for every input when the batch size is at least 1.
  For a non-empty list of ids and a batch size of at most 0 the loop never returns: the
  index never increases from 0, and the slice of an iteration is empty, except that with a
  negative batch size the first iteration (index 0) takes all ids but the last
  \<open>-batchSize\<close> ones.
\<close>

theorem batch_loop_termination:
  "(1 \<le> batchSize \<longrightarrow> (\<exists>st. batch_loop gw messageIds batchSize initial_state = Some st))
   \<and> (batchSize \<le> 0 \<and> messageIds \<noteq> [] \<longrightarrow>
        batch_loop gw messageIds batchSize initial_state = None
        \<and> (\<forall>st. idx st \<le> 0 \<longrightarrow>
              idx (loop_body gw messageIds batchSize st) \<le> idx st
              \<and> current_batch messageIds batchSize st =
                  (if idx st = 0 \<and> batchSize < 0
                   then take (length messageIds - nat (- batchSize)) messageIds else [])))"
proof (intro conjI impI allI)
  assume "1 \<le> batchSize"
  then have "0 < batchSize" by simp
  from batch_loop_forward [OF this, of gw messageIds 0]
  show "\<exists>st. batch_loop gw messageIds batchSize initial_state = Some st"
    by (auto simp: initial_state_def)
next
  assume "batchSize \<le> 0 \<and> messageIds \<noteq> []"
  then show "batch_loop gw messageIds batchSize initial_state = None"
    by (simp add: batch_loop_diverges)
next
  fix st :: loop_state
  assume "batchSize \<le> 0 \<and> messageIds \<noteq> []" "idx st \<le> 0"
  then show "idx (loop_body gw messageIds batchSize st) \<le> idx st"
    by (simp add: loop_body_def Let_def)
next
  fix st :: loop_state
  assume "batchSize \<le> 0 \<and> messageIds \<noteq> []" "idx st \<le> 0"
  then show "current_batch messageIds batchSize st =
               (if idx st = 0 \<and> batchSize < 0
                then take (length messageIds - nat (- batchSize)) messageIds else [])"
    unfolding current_batch_def by (intro js_slice_backward) auto
qed

theorem batch_loop_termination_witness:
  "(\<exists>st. batch_loop flaky three_ids 2 initial_state = Some st)
   \<and> batch_loop flaky three_ids 0 initial_state = None
   \<and> batch_loop flaky three_ids (- 1) initial_state = None
   \<and> current_batch three_ids 0 initial_state = []"
proof -
  have n: "three_ids \<noteq> []" by (simp add: three_ids_def)
  have i: "idx initial_state \<le> 0" by (simp add: initial_state_def)
  show ?thesis
    using batch_loop_termination [of 2 flaky three_ids]
      batch_loop_termination [of 0 flaky three_ids]
      batch_loop_termination [of "- 1" flaky three_ids] n i
    by simp
qed

lemma handler_no_code:
  assumes "is_callback (Some u)" "\<not> truthy (query_code env u)"
  shows "handler_try env (Some u) st = (Some (Error ''No authorization code received''), st)"
  using assms by (simp add: handler_try_def Let_def)

lemma auth_file_settle: "auth_file (settle v st) = auth_file st"
  by (simp add: settle_def)

lemma written_only_after_exchange:
  assumes "auth_file (auth_step env st ev) \<noteq> auth_file st"
  shows "\<exists>u tokens. ev = Request (Some u) \<and> is_callback (Some u) \<and> truthy (query_code env u)
           \<and> getToken env (the (query_code env u)) = Inr tokens
           \<and> writeFileSync env tokens = None
           \<and> auth_file (auth_step env st ev) = Content tokens"
proof (cases ev)
  case Timeout
  with assms show ?thesis by (simp add: on_timeout_def auth_file_settle)
next
  case (Request u)
  show ?thesis
  proof (cases u)
    case None
    with assms Request show ?thesis
      by (simp add: request_handler_def handler_try_def is_callback_def)
  next
    case (Some s)
    with assms Request show ?thesis
      by (auto simp: request_handler_def handler_try_def saveToken_def Let_def auth_file_settle
          split: if_splits sum.splits option.splits)
  qed
qed

text \<open>
  Claim C6. A request to \<open>/oauth/callback\<close> without a code, received while the promise
  is pending, rejects the promise with \<open>No authorization code received\<close>, stops the
  listener and leaves the token file and the credentials as they were. For every state
  and every event, the token file changes only on a callback with a code whose exchange
  succeeded, and it then holds the tokens of that exchange.
\<close>

theorem no_code_callback_rejects:
  assumes "is_callback (Some u)" and "\<not> truthy (query_code env u)" and "promise st = Pending"
  shows "promise (request_handler env (Some u) st) =
           Rejected (Error ''No authorization code received'')
         \<and> \<not> listening (request_handler env (Some u) st)
         \<and> auth_file (request_handler env (Some u) st) = auth_file st
         \<and> credentials (request_handler env (Some u) st) = credentials st
         \<and> (\<forall>st0 ev. auth_file (auth_step env st0 ev) \<noteq> auth_file st0 \<longrightarrow>
               (\<exists>u' tokens. ev = Request (Some u') \<and> is_callback (Some u')
                  \<and> truthy (query_code env u')
                  \<and> getToken env (the (query_code env u')) = Inr tokens
                  \<and> writeFileSync env tokens = None
                  \<and> auth_file (auth_step env st0 ev) = Content tokens))"
  using assms written_only_after_exchange [of env]
  by (simp add: request_handler_def handler_no_code settle_def)

theorem no_code_callback_rejects_witness:
  "request_handler denying_env (Some ''/oauth/callback?error=access_denied'') (awaiting Absent) =
     \<lparr>auth_file = Absent, credentials = None, listening = False,
      promise = Rejected (Error ''No authorization code received''), responses = [400]\<rparr>"
proof -
  let ?u = "''/oauth/callback?error=access_denied''"
  have c: "is_callback (Some ?u)" by (simp add: is_callback_def)
  have q: "\<not> truthy (query_code denying_env ?u)" by (simp add: denying_env_def truthy_def)
  have p: "promise (awaiting Absent) = Pending" by (simp add: awaiting_def)
  have r: "responses (request_handler denying_env (Some ?u) (awaiting Absent)) = [400]"
    by (simp add: request_handler_def handler_no_code [OF c q] settle_def awaiting_def)
  show ?thesis
    using no_code_callback_rejects [OF c q p] r
    by (cases "request_handler denying_env (Some ?u) (awaiting Absent)") (simp add: awaiting_def)
qed

lemma count_awaiting_bind:
  "k < length fs \<Longrightarrow> fs ! k \<noteq> AwaitingCallback \<Longrightarrow>
   length (filter (\<lambda>f. f = AwaitingCallback) (fs[k := AwaitingCallback])) =
   Suc (length (filter (\<lambda>f. f = AwaitingCallback) fs))"
proof (induction fs arbitrary: k)
  case Nil
  then show ?case by simp
next
  case (Cons f fs)
  then show ?case by (cases k) simp_all
qed

lemma count_awaiting_leave:
  "v \<noteq> AwaitingCallback \<Longrightarrow>
   length (filter (\<lambda>f. f = AwaitingCallback) (fs[k := v])) \<le>
   length (filter (\<lambda>f. f = AwaitingCallback) fs)"
proof (induction fs arbitrary: k)
  case Nil
  then show ?case by simp
next
  case (Cons f fs)
  then show ?case by (cases k) (auto simp: le_SucI)
qed

lemma in_flight_running_step:
  assumes "in_flight st \<le> 1"
  shows "in_flight (running_step cfg st ev) \<le> 1"
proof (cases ev)
  case (Call saved)
  with assms show ?thesis by (simp add: in_flight_def)
next
  case (TokenValid k)
  with assms count_awaiting_leave [of Finished "flows st" k] show ?thesis
    by (simp add: in_flight_def)
next
  case (TokenExpired k)
  with assms count_awaiting_leave [of Opening "flows st" k] show ?thesis
    by (simp add: in_flight_def)
next
  case (Opened k)
  show ?thesis
  proof (cases "at_flow st k Opening \<and> \<not> port_held st")
    case True
    then have "in_flight (running_step cfg st ev) = Suc (in_flight st)"
      using Opened by (simp add: in_flight_def at_flow_def count_awaiting_bind)
    with True show ?thesis by (simp add: port_held_def)
  next
    case False
    with assms Opened show ?thesis by (auto simp: in_flight_def)
  qed
next
  case (Authorized k)
  with assms count_awaiting_leave [of Finished "flows st" k] show ?thesis
    by (simp add: in_flight_def)
next
  case (Denied k)
  with assms count_awaiting_leave [of Failed "flows st" k] show ?thesis
    by (simp add: in_flight_def)
qed

lemma in_flight_proc_step:
  "in_flight st \<le> 1 \<Longrightarrow> in_flight (proc_step cfg st ev) \<le> 1"
  by (cases "exited st") (simp_all only: proc_step_def if_True if_False in_flight_running_step)

lemma in_flight_proc_run:
  "in_flight st \<le> 1 \<Longrightarrow> in_flight (proc_run cfg evs st) \<le> 1"
  unfolding proc_run_def
proof (induction evs arbitrary: st)
  case Nil
  then show ?case by simp
next
  case (Cons ev evs)
  from Cons.prems have "in_flight (proc_step cfg st ev) \<le> 1" by (rule in_flight_proc_step)
  then have "in_flight (foldl (proc_step cfg) (proc_step cfg st ev) evs) \<le> 1"
    by (rule Cons.IH)
  then show ?case by (simp only: foldl_Cons)
qed

text \<open>
  Claim C7, as stated, fails. A second call of \<open>initializeGmailClient\<close> made while the
  first is waiting for its callback finds \<open>gmailClient\<close> unset and starts its own
  authorization: it is not rejected and does not wait for the first. When it resumes it
  calls \<open>server.listen(3000)\<close> itself, while the first server holds the port, and the
  process exits on the unhandled error.
\<close>

theorem second_attempt_counterexample:
  "proc_run interactive [Call False, Opened 0, Call False] fresh_process =
     \<lparr>gmailClient = False, flows = [AwaitingCallback, Opening], listen_calls = 1,
      exited = False\<rparr>
   \<and> proc_run interactive [Call False, Opened 0, Call False, Opened 1] fresh_process =
     \<lparr>gmailClient = False, flows = [AwaitingCallback, Opening], listen_calls = 2,
      exited = True\<rparr>"
  by (simp add: proc_run_def proc_step_def interactive_def fresh_process_def at_flow_def
      port_held_def in_flight_def)

text \<open>
  Claim C7, amended. At most one listener is bound to port 3000 at any time, but no call
  is rejected or made to wait: the code has no guard for an authorization in progress.
  Once \<open>gmailClient\<close> is set, a call returns it and starts nothing. While it is unset, a
  call set up for the browser flow with no saved token starts its own authorization,
  whatever the number of calls already waiting. When an authorization resumes after
  opening the browser it calls \<open>server.listen(3000)\<close>: if no server holds the port it
  then waits for its callback; if the server of another call holds the port, the process
  exits.
\<close>

theorem only_completed_client_is_shared:
  "in_flight (proc_run cfg evs fresh_process) \<le> 1
   \<and> (\<not> exited st \<longrightarrow>
        (gmailClient st \<longrightarrow> proc_step cfg st (Call saved) = st)
        \<and> (\<not> gmailClient st \<and> \<not> service_account cfg \<and> oauth_env cfg \<and> \<not> saved \<longrightarrow>
             proc_step cfg st (Call saved) = st\<lparr>flows := flows st @ [Opening]\<rparr>)
        \<and> (at_flow st k Opening \<and> port_held st \<longrightarrow>
             proc_step cfg st (Opened k) =
               st\<lparr>listen_calls := listen_calls st + 1, exited := True\<rparr>)
        \<and> (at_flow st k Opening \<and> \<not> port_held st \<longrightarrow>
             proc_step cfg st (Opened k) =
               st\<lparr>flows := (flows st)[k := AwaitingCallback],
                  listen_calls := listen_calls st + 1\<rparr>))"
proof (intro conjI impI)
  have "in_flight fresh_process \<le> 1" by (simp add: in_flight_def fresh_process_def)
  then show "in_flight (proc_run cfg evs fresh_process) \<le> 1" by (rule in_flight_proc_run)
qed (simp_all add: proc_step_def)

theorem only_completed_client_is_shared_witness:
  "proc_step interactive (proc_run interactive [Call False, Opened 0, Authorized 0] fresh_process)
     (Call False) =
     \<lparr>gmailClient = True, flows = [Finished], listen_calls = 1, exited = False\<rparr>
   \<and> proc_step interactive (proc_run interactive [Call False, Opened 0] fresh_process) (Call False) =
     \<lparr>gmailClient = False, flows = [AwaitingCallback, Opening], listen_calls = 1,
      exited = False\<rparr>
   \<and> proc_step interactive (proc_run interactive [Call False, Opened 0, Call False] fresh_process)
       (Opened 1) =
     \<lparr>gmailClient = False, flows = [AwaitingCallback, Opening], listen_calls = 2,
      exited = True\<rparr>
   \<and> proc_step interactive (proc_run interactive [Call False] fresh_process) (Opened 0) =
     \<lparr>gmailClient = False, flows = [AwaitingCallback], listen_calls = 1, exited = False\<rparr>
   \<and> in_flight (proc_run interactive [Call False, Opened 0, Call False, Opened 1] fresh_process)
       \<le> 1"
proof -
  let ?a = "proc_run interactive [Call False, Opened 0, Authorized 0] fresh_process"
  let ?b = "proc_run interactive [Call False, Opened 0] fresh_process"
  let ?c = "proc_run interactive [Call False, Opened 0, Call False] fresh_process"
  let ?d = "proc_run interactive [Call False] fresh_process"
  have a: "?a = \<lparr>gmailClient = True, flows = [Finished], listen_calls = 1, exited = False\<rparr>"
    by (simp add: proc_run_def proc_step_def interactive_def fresh_process_def at_flow_def
        port_held_def in_flight_def)
  have b: "?b = \<lparr>gmailClient = False, flows = [AwaitingCallback], listen_calls = 1,
                  exited = False\<rparr>"
    by (simp add: proc_run_def proc_step_def interactive_def fresh_process_def at_flow_def
        port_held_def in_flight_def)
  have c: "?c = \<lparr>gmailClient = False, flows = [AwaitingCallback, Opening], listen_calls = 1,
                  exited = False\<rparr>"
    by (simp add: proc_run_def proc_step_def interactive_def fresh_process_def at_flow_def
        port_held_def in_flight_def)
  have d: "?d = \<lparr>gmailClient = False, flows = [Opening], listen_calls = 0, exited = False\<rparr>"
    by (simp add: proc_run_def proc_step_def interactive_def fresh_process_def)
  have i: "\<not> service_account interactive \<and> oauth_env interactive"
    by (simp add: interactive_def)
  have oc: "at_flow ?c 1 Opening \<and> port_held ?c"
    unfolding c by (simp add: at_flow_def port_held_def in_flight_def)
  have od: "at_flow ?d 0 Opening \<and> \<not> port_held ?d"
    unfolding d by (simp add: at_flow_def port_held_def in_flight_def)
  have ea: "\<not> exited ?a" and eb: "\<not> exited ?b" and ec: "\<not> exited ?c" and ed: "\<not> exited ?d"
    unfolding a b c d by simp_all
  note t = only_completed_client_is_shared
  from t [where st = ?a and cfg = interactive and saved = False] ea a
  have 1: "proc_step interactive ?a (Call False) =
      \<lparr>gmailClient = True, flows = [Finished], listen_calls = 1, exited = False\<rparr>"
    by simp
  from t [where st = ?b and cfg = interactive and saved = False] eb i
  have "proc_step interactive ?b (Call False) = ?b\<lparr>flows := flows ?b @ [Opening]\<rparr>"
    unfolding b by simp
  then have 2: "proc_step interactive ?b (Call False) =
      \<lparr>gmailClient = False, flows = [AwaitingCallback, Opening], listen_calls = 1,
       exited = False\<rparr>"
    unfolding b by simp
  from t [where st = ?c and cfg = interactive and k = 1] ec oc
  have "proc_step interactive ?c (Opened 1) =
      ?c\<lparr>listen_calls := listen_calls ?c + 1, exited := True\<rparr>"
    by blast
  then have 3: "proc_step interactive ?c (Opened 1) =
      \<lparr>gmailClient = False, flows = [AwaitingCallback, Opening], listen_calls = 2,
       exited = True\<rparr>"
    unfolding c by simp
  from t [where st = ?d and cfg = interactive and k = 0] ed od
  have "proc_step interactive ?d (Opened 0) =
      ?d\<lparr>flows := (flows ?d)[0 := AwaitingCallback], listen_calls := listen_calls ?d + 1\<rparr>"
    by blast
  then have 4: "proc_step interactive ?d (Opened 0) =
      \<lparr>gmailClient = False, flows = [AwaitingCallback], listen_calls = 1, exited = False\<rparr>"
    unfolding d by simp
  from t [where cfg = interactive and evs = "[Call False, Opened 0, Call False, Opened 1]"]
  have 5: "in_flight (proc_run interactive [Call False, Opened 0, Call False, Opened 1]
                       fresh_process) \<le> 1"
    by (rule conjunct1)
  from 1 2 3 4 5 show ?thesis by blast
qed

lemma js_slice_prefix:
  "0 \<le> n \<Longrightarrow> js_slice xs 0 n = take (nat n) xs"
  by (simp add: js_slice_def Let_def min_def)

lemma search_slice_take: "search_slice xs = take 10 xs"
  by (simp add: search_slice_def js_slice_prefix min_def)

lemma thread_slice_take: "thread_slice xs = take 10 xs"
  by (simp add: thread_slice_def js_slice_prefix)

lemma subseq_enrich: "subseq (map se_id (enrich lower get ms)) ms"
  by (induction ms) (auto simp: Let_def split: sum.splits)

lemma length_enrich: "length (enrich lower get ms) \<le> length ms"
  by (induction ms) (auto simp: Let_def split: sum.splits)

lemma enrich_all:
  "list_all (\<lambda>m. \<not> isl (get m)) ms \<Longrightarrow> map se_id (enrich lower get ms) = ms"
  by (induction ms) (auto simp: Let_def split: sum.splits)

lemma enrich_threads_ids:
  "enrich_threads lower get ts = Inr rs \<Longrightarrow> map te_id rs = ts"
  by (induction ts arbitrary: rs)
     (auto simp: thread_entry_of_def Let_def split: sum.splits)

text \<open>
  Claim C8. Both tools look up only the first 10 entries of the list returned by the
  gateway. \<open>gmail_search_emails\<close> shows those of them that could be retrieved, in order
  (all of them, \<open>min(10, M)\<close>, when every retrieval succeeds), and its text reports the
  full length \<open>M\<close> of the list. \<open>gmail_list_threads\<close>, when every retrieval succeeds,
  shows exactly the first \<open>min(10, M)\<close> threads and reports \<open>M\<close>. An empty list gives the
  fixed text that nothing was found.
\<close>

theorem listing_cap:
  "search_slice messages = take 10 messages
   \<and> length (search_slice messages) = min 10 (length messages)
   \<and> subseq (map se_id (search_results lower get messages)) (take 10 messages)
   \<and> length (search_results lower get messages) \<le> min 10 (length messages)
   \<and> (list_all (\<lambda>m. \<not> isl (get m)) (take 10 messages) \<longrightarrow>
        map se_id (search_results lower get messages) = take 10 messages)
   \<and> (messages \<noteq> [] \<longrightarrow>
        gmail_search_emails lower get messages =
          ''Found '' @ show_nat (length messages) @ '' messages. Showing first ''
          @ show_nat (length (search_results lower get messages)) @ '':'' @ [nl, nl]
          @ join [nl] (map search_line (search_results lower get messages)))
   \<and> gmail_search_emails lower get [] = ''No messages found matching the search query.''
   \<and> gmail_list_threads lower tget [] = ''No threads found matching the criteria.''
   \<and> thread_slice threads = take 10 threads
   \<and> (\<forall>shown. thread_results lower tget threads = Inr shown \<longrightarrow>
        map te_id shown = take 10 threads
        \<and> length shown = min 10 (length threads)
        \<and> (threads \<noteq> [] \<longrightarrow>
             gmail_list_threads lower tget threads =
               ''Found '' @ show_nat (length threads) @ '' threads. Showing first ''
               @ show_nat (min 10 (length threads)) @ '':'' @ [nl, nl]
               @ join [nl] (map thread_line shown)))"
proof (intro conjI impI allI)
  show "search_slice messages = take 10 messages" by (rule search_slice_take)
  show "length (search_slice messages) = min 10 (length messages)"
    by (simp add: search_slice_take min.commute)
  show "subseq (map se_id (search_results lower get messages)) (take 10 messages)"
    by (simp add: search_results_def search_slice_take subseq_enrich)
  show "length (search_results lower get messages) \<le> min 10 (length messages)"
    using length_enrich [of lower get "take 10 messages"]
    by (simp add: search_results_def search_slice_take min.commute)
  show "map se_id (search_results lower get messages) = take 10 messages"
    if "list_all (\<lambda>m. \<not> isl (get m)) (take 10 messages)"
    using that by (simp add: search_results_def search_slice_take enrich_all)
  show "gmail_search_emails lower get messages =
          ''Found '' @ show_nat (length messages) @ '' messages. Showing first ''
          @ show_nat (length (search_results lower get messages)) @ '':'' @ [nl, nl]
          @ join [nl] (map search_line (search_results lower get messages))"
    if "messages \<noteq> []"
    using that by (simp add: gmail_search_emails_def Let_def)
  show "thread_slice threads = take 10 threads" by (rule thread_slice_take)
  show "gmail_search_emails lower get [] = ''No messages found matching the search query.''"
    by (simp add: gmail_search_emails_def)
  show "gmail_list_threads lower tget [] = ''No threads found matching the criteria.''"
    by (simp add: gmail_list_threads_def)
next
  fix shown
  assume r: "thread_results lower tget threads = Inr shown"
  then show ids: "map te_id shown = take 10 threads"
    by (simp add: thread_results_def thread_slice_take enrich_threads_ids)
  then have "length (map te_id shown) = length (take 10 threads)" by simp
  then show len: "length shown = min 10 (length threads)" by (simp add: min.commute)
  show "gmail_list_threads lower tget threads =
               ''Found '' @ show_nat (length threads) @ '' threads. Showing first ''
               @ show_nat (min 10 (length threads)) @ '':'' @ [nl, nl]
               @ join [nl] (map thread_line shown)"
    if "threads \<noteq> []"
    using that r len by (simp add: gmail_list_threads_def)
qed

theorem listing_cap_witness:
  "length (search_results (\<lambda>s. s) (\<lambda>m. Inr None) twelve_ids) = 10
   \<and> take 36 (gmail_search_emails (\<lambda>s. s) (\<lambda>m. Inr None) twelve_ids) =
       ''Found 12 messages. Showing first 10:''
   \<and> take 35 (gmail_list_threads (\<lambda>s. s) (\<lambda>t. Inr None) twelve_ids) =
       ''Found 12 threads. Showing first 10:''"
proof -
  let ?get = "\<lambda>m::string. Inr None :: thrown + header list option"
  let ?tget = "\<lambda>m::string. Inr None :: thrown + header list option list option"
  note cap = listing_cap [where messages = twelve_ids and lower = "\<lambda>s. s" and get = ?get
      and threads = twelve_ids and tget = ?tget]
  have ne: "twelve_ids \<noteq> []" by (simp add: twelve_ids_def)
  have all: "list_all (\<lambda>m. \<not> isl (?get m)) (take 10 twelve_ids)" by (simp add: list_all_iff)
  from cap all have "map se_id (search_results (\<lambda>s. s) ?get twelve_ids) = take 10 twelve_ids"
    by blast
  then have "length (map se_id (search_results (\<lambda>s. s) ?get twelve_ids)) = length (take 10 twelve_ids)"
    by simp
  then have n: "length (search_results (\<lambda>s. s) ?get twelve_ids) = 10"
    by (simp add: twelve_ids_def)
  have s12: "show_nat 12 = ''12''" and s10: "show_nat 10 = ''10''" by code_simp+
  have l: "length twelve_ids = 12" by (simp add: twelve_ids_def)
  from cap ne have "gmail_search_emails (\<lambda>s. s) ?get twelve_ids =
          ''Found '' @ show_nat (length twelve_ids) @ '' messages. Showing first ''
          @ show_nat (length (search_results (\<lambda>s. s) ?get twelve_ids)) @ '':'' @ [nl, nl]
          @ join [nl] (map search_line (search_results (\<lambda>s. s) ?get twelve_ids))"
    by blast
  then have t: "take 36 (gmail_search_emails (\<lambda>s. s) ?get twelve_ids) =
       ''Found 12 messages. Showing first 10:''"
    unfolding n l s12 s10 by simp
  obtain shown where sh: "thread_results (\<lambda>s. s) ?tget twelve_ids = Inr shown"
    by (simp add: thread_results_def thread_slice_take twelve_ids_def)
  with cap ne have "gmail_list_threads (\<lambda>s. s) ?tget twelve_ids =
               ''Found '' @ show_nat (length twelve_ids) @ '' threads. Showing first ''
               @ show_nat (min 10 (length twelve_ids)) @ '':'' @ [nl, nl]
               @ join [nl] (map thread_line shown)"
    by blast
  then have "take 35 (gmail_list_threads (\<lambda>s. s) ?tget twelve_ids) =
       ''Found 12 threads. Showing first 10:''"
    unfolding l s12 by (simp add: s10)
  with n t show ?thesis by blast
qed

end
